theory Spec2Isabelle
  imports Main
begin

section \<open>Documents and collections\<close>

text \<open>
  The dislikes service keeps three MongoDB collections: user documents, tuit documents and
  dislike documents. Object ids travel as strings (\<open>req.params.uid\<close>, \<open>req.params.tid\<close>,
  \<open>profile._id\<close>); the casting of a string to an ObjectId by Mongoose is not modelled, every
  id is taken to be well formed. A collection is the list of its documents in insertion order.

  A user document; \<open>user_id\<close> is its \<open>_id\<close>, the one field the controller reads
  (\<open>profile._id\<close>).
\<close>

record User =
  user_id :: string

text \<open>
  The statistics object of a tuit; \<open>tuit.stats.dislikes\<close> is the cached dislike counter.
  It is a JavaScript number the controller computes as a count plus or minus one, so an
  unbounded integer.
\<close>

record Stats =
  dislikes :: int

text \<open>
  A tuit document: \<open>tuit_id\<close> is its \<open>_id\<close>; \<open>postedBy\<close> holds the author's id as stored
  (\<open>string Tuit\<close>) or, once populated, the author's document or null (\<open>User option Tuit\<close>).
  The tuit model is not among the sources: of a tuit the sources read \<open>stats\<close> (which every
  tuit document is taken to carry) and populate \<open>postedBy\<close>, nothing else.
\<close>

record 'u Tuit =
  tuit_id :: string
  postedBy :: 'u
  stats :: Stats

text \<open>
  A dislike document, as \<open>DislikeSchema\<close> declares it: the two references \<open>tuit\<close> and
  \<open>dislikedBy\<close>, each an id as stored or a document (or null) once populated. The schema
  declares no index, so nothing makes the pair unique in the collection: two edges for one
  pair are two equal entries of the list. No call in the sources selects a dislike by its
  \<open>_id\<close>, which is left out.
\<close>

record ('t, 'u) Dislike =
  tuit :: 't
  dislikedBy :: 'u

record store =
  dislikes_collection :: "(string, string) Dislike list"
  tuits_collection :: "string Tuit list"
  users_collection :: "User list"

section \<open>The Mongoose model operations the DAO calls\<close>

text \<open>
  \<open>Model.find(filter)\<close> returns the matching documents, \<open>Model.findOne(filter)\<close> the first
  one or null, \<open>Model.count(filter)\<close> their number, \<open>Model.deleteOne(filter)\<close> removes the
  first match if there is one (and resolves either way), \<open>Model.create(doc)\<close> appends the
  document.
\<close>

definition Model_find :: "('a \<Rightarrow> bool) \<Rightarrow> 'a list \<Rightarrow> 'a list" where
  "Model_find p docs = filter p docs"

definition Model_findOne :: "('a \<Rightarrow> bool) \<Rightarrow> 'a list \<Rightarrow> 'a option" where
  "Model_findOne p docs = List.find p docs"

definition Model_count :: "('a \<Rightarrow> bool) \<Rightarrow> 'a list \<Rightarrow> int" where
  "Model_count p docs = int (length (filter p docs))"

fun Model_deleteOne :: "('a \<Rightarrow> bool) \<Rightarrow> 'a list \<Rightarrow> 'a list" where
  "Model_deleteOne p [] = []"
| "Model_deleteOne p (d # docs) = (if p d then docs else d # Model_deleteOne p docs)"

definition Model_create :: "'a \<Rightarrow> 'a list \<Rightarrow> 'a list" where
  "Model_create d docs = docs @ [d]"

text \<open>\<open>populate\<close> replaces a reference by the document it resolves to, or by null.\<close>

definition populate_user :: "store \<Rightarrow> string \<Rightarrow> User option" where
  "populate_user db uid = List.find (\<lambda>u. user_id u = uid) (users_collection db)"

definition populate_tuit :: "store \<Rightarrow> string \<Rightarrow> User option Tuit option" where
  "populate_tuit db tid =
     map_option
       (\<lambda>t. \<lparr>tuit_id = tuit_id t, postedBy = populate_user db (postedBy t), stats = stats t\<rparr>)
       (List.find (\<lambda>t. tuit_id t = tid) (tuits_collection db))"

section \<open>DislikeDao\<close>

definition findAllUsersThatDislikedTuit :: "store \<Rightarrow> string \<Rightarrow> (string, User option) Dislike list" where
  "findAllUsersThatDislikedTuit db tid =
     map (\<lambda>d. \<lparr>tuit = tuit d, dislikedBy = populate_user db (dislikedBy d)\<rparr>)
       (Model_find (\<lambda>d. tuit d = tid) (dislikes_collection db))"

definition findAllTuitsDislikedByUser :: "store \<Rightarrow> string \<Rightarrow> (User option Tuit option, string) Dislike list" where
  "findAllTuitsDislikedByUser db uid =
     map (\<lambda>d. \<lparr>tuit = populate_tuit db (tuit d), dislikedBy = dislikedBy d\<rparr>)
       (Model_find (\<lambda>d. dislikedBy d = uid) (dislikes_collection db))"

definition userUnDislikesTuit :: "store \<Rightarrow> string \<Rightarrow> string \<Rightarrow> store" where
  "userUnDislikesTuit db uid tid =
     db\<lparr>dislikes_collection :=
          Model_deleteOne (\<lambda>d. tuit d = tid \<and> dislikedBy d = uid) (dislikes_collection db)\<rparr>"

definition findUserDislikesTuit :: "store \<Rightarrow> string \<Rightarrow> string \<Rightarrow> (string, string) Dislike option" where
  "findUserDislikesTuit db uid tid =
     Model_findOne (\<lambda>d. tuit d = tid \<and> dislikedBy d = uid) (dislikes_collection db)"

definition userDislikesTuit :: "store \<Rightarrow> string \<Rightarrow> string \<Rightarrow> (string, string) Dislike \<times> store" where
  "userDislikesTuit db uid tid =
     (let d = \<lparr>tuit = tid, dislikedBy = uid\<rparr>
      in (d, db\<lparr>dislikes_collection := Model_create d (dislikes_collection db)\<rparr>))"

definition countHowManyDislikedTuit :: "store \<Rightarrow> string \<Rightarrow> int" where
  "countHowManyDislikedTuit db tid = Model_count (\<lambda>d. tuit d = tid) (dislikes_collection db)"

section \<open>TuitDao\<close>

datatype error = NotFound

text \<open>
  Modelled from the spec: \<open>TuitDao\<close> (\<open>src/daos/TuitDao.ts\<close>) is not among the sources; the
  controller calls its \<open>findTuitById\<close> and \<open>updateDislikes\<close>. The spec has the core read an
  item by its id and names no failure of that read, so \<open>findTuitById\<close> is a point lookup
  that yields the document or null, as the sibling lookup \<open>findUserDislikesTuit\<close> of
  \<open>DislikeDao\<close> does.
\<close>

definition findTuitById :: "store \<Rightarrow> string \<Rightarrow> string Tuit option" where
  "findTuitById db tid = List.find (\<lambda>t. tuit_id t = tid) (tuits_collection db)"

fun updateStats :: "string \<Rightarrow> Stats \<Rightarrow> string Tuit list \<Rightarrow> string Tuit list" where
  "updateStats tid newStats [] = []"
| "updateStats tid newStats (t # ts) =
     (if tuit_id t = tid then t\<lparr>stats := newStats\<rparr> # ts else t # updateStats tid newStats ts)"

text \<open>
  Modelled from the spec: \<open>updateDislikes\<close> of the absent \<open>TuitDao\<close> is the item counter
  updater, which applies the new statistics to the item and fails with \<open>NotFound\<close> when
  the item is missing.
\<close>

definition updateDislikes :: "store \<Rightarrow> string \<Rightarrow> Stats \<Rightarrow> error + store" where
  "updateDislikes db tid newStats =
     (case findTuitById db tid of
        None \<Rightarrow> Inl NotFound
      | Some t \<Rightarrow> Inr (db\<lparr>tuits_collection := updateStats tid newStats (tuits_collection db)\<rparr>))"

section \<open>DislikeController\<close>

text \<open>
  A request carries the path parameters and the session's profile (undefined when nobody
  is logged in). A handler answers with a status or a JSON body; next to the response it
  returns the store it leaves and the DAO calls it issued, in order.
\<close>

record request =
  params_uid :: string
  params_tid :: string
  session_profile :: "User option"

datatype response =
    SendStatus nat
  | JsonDislikes "(string, User option) Dislike list"
  | JsonTuits "User option Tuit list"
  | JsonDislike "(string, string) Dislike option"

datatype access =
    FindAllUsersThatDislikedTuit string
  | FindAllTuitsDislikedByUser string
  | UserUnDislikesTuit string string
  | FindUserDislikesTuit string string
  | UserDislikesTuit string string
  | CountHowManyDislikedTuit string
  | FindTuitById string
  | UpdateDislikes string Stats

text \<open>\<open>uid === "me" && profile ? profile._id : uid\<close>, as the three handlers compute it.\<close>

definition userId :: "string \<Rightarrow> User option \<Rightarrow> string" where
  "userId uid profile = (if uid = ''me'' \<and> profile \<noteq> None then user_id (the profile) else uid)"

definition ctl_findAllUsersThatDislikedTuit :: "request \<Rightarrow> store \<Rightarrow> response \<times> store \<times> access list" where
  "ctl_findAllUsersThatDislikedTuit req db =
     (JsonDislikes (findAllUsersThatDislikedTuit db (params_tid req)), db,
      [FindAllUsersThatDislikedTuit (params_tid req)])"

definition ctl_findAllTuitsDislikedByUser :: "request \<Rightarrow> store \<Rightarrow> response \<times> store \<times> access list" where
  "ctl_findAllTuitsDislikedByUser req db =
     (let uid = params_uid req; profile = session_profile req in
      if uid = ''me'' \<and> profile = None then (SendStatus 403, db, [])
      else
        let dislikes = findAllTuitsDislikedByUser db (userId uid profile);
            dislikesNonNullTuits = filter (\<lambda>dislike. tuit dislike \<noteq> None) dislikes;
            tuitsFromDislikes = map (\<lambda>dislike. the (tuit dislike)) dislikesNonNullTuits
        in (JsonTuits tuitsFromDislikes, db, [FindAllTuitsDislikedByUser (userId uid profile)]))"

definition userAlreadyDislikedTuit :: "request \<Rightarrow> store \<Rightarrow> response \<times> store \<times> access list" where
  "userAlreadyDislikedTuit req db =
     (let uid = params_uid req; tid = params_tid req; profile = session_profile req in
      if uid = ''me'' \<and> profile = None then (SendStatus 403, db, [])
      else (JsonDislike (findUserDislikesTuit db (userId uid profile) tid), db,
            [FindUserDislikesTuit (userId uid profile) tid]))"

text \<open>
  The toggle handler awaits five DAO calls in turn. Between two of them the handler is
  suspended and the calls of other requests reach the store; \<open>interleaving\<close> gives, for
  each of the four gaps, what those calls do to the store. \<open>sequential\<close> is the run with no
  other writer.
\<close>

record interleaving =
  after_find :: "store \<Rightarrow> store"
  after_count :: "store \<Rightarrow> store"
  after_findTuit :: "store \<Rightarrow> store"
  after_edge :: "store \<Rightarrow> store"

definition sequential :: interleaving where
  "sequential = \<lparr>after_find = id, after_count = id, after_findTuit = id, after_edge = id\<rparr>"

text \<open>
  The end of the \<open>try\<close> block, once the edge has been written: \<open>tuit.stats.dislikes = n\<close>
  throws on a null \<open>tuit\<close> (caught, 404); otherwise the statistics object with its new
  counter goes to \<open>updateDislikes\<close>, and the answer is 200, or 404 when that call fails.
\<close>

definition write_counter ::
  "interleaving \<Rightarrow> string \<Rightarrow> string Tuit option \<Rightarrow> int \<Rightarrow> store \<Rightarrow> access list \<Rightarrow> response \<times> store \<times> access list" where
  "write_counter il tid found n db calls =
     (case found of
        None \<Rightarrow> (SendStatus 404, db, calls)
      | Some t \<Rightarrow>
          (let newStats = (stats t)\<lparr>dislikes := n\<rparr>;
               db' = after_edge il db
           in case updateDislikes db' tid newStats of
                Inl e \<Rightarrow> (SendStatus 404, db', calls @ [UpdateDislikes tid newStats])
              | Inr db'' \<Rightarrow> (SendStatus 200, db'', calls @ [UpdateDislikes tid newStats])))"

definition userTogglesTuitDislikes ::
  "interleaving \<Rightarrow> request \<Rightarrow> store \<Rightarrow> response \<times> store \<times> access list" where
  "userTogglesTuitDislikes il req db =
     (let uid = params_uid req; tid = params_tid req; profile = session_profile req in
      if uid = ''me'' \<and> profile = None then (SendStatus 403, db, [])
      else
        let actor = userId uid profile;
            already = findUserDislikesTuit db actor tid;
            db1 = after_find il db;
            howManyDislikedTuit = countHowManyDislikedTuit db1 tid;
            db2 = after_count il db1;
            found = findTuitById db2 tid;
            db3 = after_findTuit il db2;
            reads = [FindUserDislikesTuit actor tid, CountHowManyDislikedTuit tid, FindTuitById tid]
        in if already \<noteq> None
           then write_counter il tid found (howManyDislikedTuit - 1)
                  (userUnDislikesTuit db3 actor tid) (reads @ [UserUnDislikesTuit actor tid])
           else write_counter il tid found (howManyDislikedTuit + 1)
                  (snd (userDislikesTuit db3 actor tid)) (reads @ [UserDislikesTuit actor tid]))"

text \<open>A sequence of toggle requests, each completed before the next begins.\<close>

fun toggles :: "request list \<Rightarrow> store \<Rightarrow> response list \<times> store" where
  "toggles [] db = ([], db)"
| "toggles (req # reqs) db =
     (case userTogglesTuitDislikes sequential req db of
        (r, db', calls) \<Rightarrow> (case toggles reqs db' of (rs, db'') \<Rightarrow> (r # rs, db'')))"

section \<open>Notions the properties are stated with\<close>

text \<open>The actor a request stands for once the alias \<open>me\<close> is resolved.\<close>

definition actorOf :: "request \<Rightarrow> string" where
  "actorOf req = userId (params_uid req) (session_profile req)"

text \<open>The number of dislike documents the store holds for one (actor, tuit) pair.\<close>

definition edgeCount :: "store \<Rightarrow> string \<Rightarrow> string \<Rightarrow> nat" where
  "edgeCount db uid tid =
     length (filter (\<lambda>d. tuit d = tid \<and> dislikedBy d = uid) (dislikes_collection db))"

text \<open>
  The query of the spec's words, \<open>dislikedItemsOf(actorId)\<close>: the items of the actor's
  edges, in the order of the edges, an edge whose item does not resolve giving none.
\<close>

definition spec_dislikedItemsOf :: "store \<Rightarrow> string \<Rightarrow> User option Tuit list" where
  "spec_dislikedItemsOf db actor =
     concat (map (\<lambda>d. case populate_tuit db (tuit d) of None \<Rightarrow> [] | Some t \<Rightarrow> [t])
               (filter (\<lambda>d. dislikedBy d = actor) (dislikes_collection db)))"

text \<open>The cached counter of a tuit agrees with the number of its dislike documents.\<close>

definition counterInSync :: "store \<Rightarrow> string \<Rightarrow> bool" where
  "counterInSync db tid =
     (case findTuitById db tid of
        None \<Rightarrow> False
      | Some t \<Rightarrow> dislikes (stats t) = countHowManyDislikedTuit db tid)"

section \<open>Concrete stores and requests\<close>

definition alice :: string where "alice = ''00000000000000000000000a''"
definition bob :: string where "bob = ''00000000000000000000000b''"
definition tuit1 :: string where "tuit1 = ''0000000000000000000000f1''"
definition gone :: string where "gone = ''0000000000000000000000f9''"

definition store_of :: "(string, string) Dislike list \<Rightarrow> int \<Rightarrow> store" where
  "store_of ds n =
     \<lparr>dislikes_collection = ds,
      tuits_collection = [\<lparr>tuit_id = tuit1, postedBy = bob, stats = \<lparr>dislikes = n\<rparr>\<rparr>],
      users_collection = [\<lparr>user_id = alice\<rparr>, \<lparr>user_id = bob\<rparr>]\<rparr>"

definition request_of :: "string \<Rightarrow> string \<Rightarrow> request" where
  "request_of uid tid = \<lparr>params_uid = uid, params_tid = tid, session_profile = None\<rparr>"

text \<open>
  Another request's un-dislike of (alice, tuit1) reaching the store between this request's
  edge lookup and its count.
\<close>

definition racing_undislike :: interleaving where
  "racing_undislike = sequential\<lparr>after_find := (\<lambda>db. userUnDislikesTuit db alice tuit1)\<rparr>"

text \<open>
  Another request's dislike of (alice, tuit1) reaching the store between this request's
  edge lookup and its count: two toggles of the same pair that both found no edge.
\<close>

definition racing_dislike :: interleaving where
  "racing_dislike = sequential\<lparr>after_find := (\<lambda>db. snd (userDislikesTuit db alice tuit1))\<rparr>"

section \<open>Facts about the collections\<close>

lemma find_updateStats_same:
  "List.find (\<lambda>t. tuit_id t = tid) ts = Some t \<Longrightarrow>
   List.find (\<lambda>t. tuit_id t = tid) (updateStats tid s ts) = Some (t\<lparr>stats := s\<rparr>)"
  by (induction ts) (auto split: if_splits)

lemma find_updateStats_other:
  "tid' \<noteq> tid \<Longrightarrow>
   List.find (\<lambda>t. tuit_id t = tid') (updateStats tid s ts) = List.find (\<lambda>t. tuit_id t = tid') ts"
  by (induction ts) auto

lemma filter_deleteOne_count:
  "List.find p xs \<noteq> None \<Longrightarrow> (\<And>x. p x \<Longrightarrow> q x) \<Longrightarrow>
   Suc (length (filter q (Model_deleteOne p xs))) = length (filter q xs)"
  by (induction xs) (auto split: if_splits)

lemma filter_deleteOne_other:
  "(\<And>x. p x \<Longrightarrow> \<not> q x) \<Longrightarrow> filter q (Model_deleteOne p xs) = filter q xs"
  by (induction xs) auto

lemma find_None_filter: "(List.find p xs = None) = (filter p xs = [])"
  by (induction xs) auto

lemma map_the_filter_concat:
  "map (\<lambda>x. the (f x)) (filter (\<lambda>x. f x \<noteq> None) xs)
     = concat (map (\<lambda>x. case f x of None \<Rightarrow> [] | Some t \<Rightarrow> [t]) xs)"
  by (induction xs) auto

lemma populate_tuit_None: "(populate_tuit db tid = None) = (findTuitById db tid = None)"
  by (simp add: populate_tuit_def findTuitById_def)

lemma length_concat_resolved:
  assumes "\<And>d. (f d = None) = (g d = None)"
  shows "length (concat (map (\<lambda>d. case f d of None \<Rightarrow> [] | Some t \<Rightarrow> [t]) (filter p xs)))
           = length (filter (\<lambda>d. p d \<and> g d \<noteq> None) xs)"
proof (induction xs)
  case Nil
  show ?case by simp
next
  case (Cons x xs)
  show ?case
  proof (cases "f x")
    case None
    with assms [of x] Cons show ?thesis by simp
  next
    case (Some t)
    with assms [of x] Cons show ?thesis by auto
  qed
qed

section \<open>The read-only handlers\<close>

text \<open>
  C6. When the caller names the actor by the alias \<open>me\<close> and the session holds no profile,
  the toggle (under any interleaving) and the dislike-status check both answer 403, the
  status the controller sends for an unauthenticated caller, issue no DAO call and leave
  the store as it was.
\<close>

theorem unauthenticated_self_touches_no_store:
  assumes "params_uid req = ''me''" and "session_profile req = None"
  shows "userTogglesTuitDislikes il req db = (SendStatus 403, db, []) \<and>
         userAlreadyDislikedTuit req db = (SendStatus 403, db, [])"
  using assms by (simp add: userTogglesTuitDislikes_def userAlreadyDislikedTuit_def)

theorem unauthenticated_self_touches_no_store_witness:
  "userTogglesTuitDislikes racing_undislike (request_of ''me'' tuit1) (store_of [] 0)
     = (SendStatus 403, store_of [] 0, []) \<and>
   userAlreadyDislikedTuit (request_of ''me'' tuit1) (store_of [] 0)
     = (SendStatus 403, store_of [] 0, [])"
  using unauthenticated_self_touches_no_store
    [of "request_of ''me'' tuit1" racing_undislike "store_of [] 0"]
  by (simp add: request_of_def)

text \<open>
  C7. For a request whose actor resolves, the list of the tuits an actor dislikes is
  answered as a JSON body (never a failure status) holding exactly the items of the
  actor's edges whose tuit resolves, in the order of the edges: it is the spec's
  \<open>dislikedItemsOf\<close>, and it has one item for each of the actor's edges whose tuit is
  found, so every edge with a dangling tuit reference is left out.
\<close>

theorem disliked_items_skip_dangling_edges:
  assumes "\<not> (params_uid req = ''me'' \<and> session_profile req = None)"
  shows "ctl_findAllTuitsDislikedByUser req db =
           (JsonTuits (spec_dislikedItemsOf db (actorOf req)), db,
            [FindAllTuitsDislikedByUser (actorOf req)]) \<and>
         length (spec_dislikedItemsOf db (actorOf req)) =
           length (filter (\<lambda>d. dislikedBy d = actorOf req \<and> findTuitById db (tuit d) \<noteq> None)
                     (dislikes_collection db))"
proof -
  have "map (\<lambda>dislike. the (tuit dislike))
          (filter (\<lambda>dislike. tuit dislike \<noteq> None) (findAllTuitsDislikedByUser db (actorOf req)))
        = spec_dislikedItemsOf db (actorOf req)"
    by (simp add: findAllTuitsDislikedByUser_def Model_find_def spec_dislikedItemsOf_def
        filter_map comp_def map_the_filter_concat [symmetric])
  moreover have "length (spec_dislikedItemsOf db (actorOf req)) =
     length (filter (\<lambda>d. dislikedBy d = actorOf req \<and> findTuitById db (tuit d) \<noteq> None)
                     (dislikes_collection db))"
    unfolding spec_dislikedItemsOf_def
    by (rule length_concat_resolved) (rule populate_tuit_None)
  ultimately show ?thesis using assms
    by (simp add: ctl_findAllTuitsDislikedByUser_def Let_def actorOf_def)
qed

theorem disliked_items_skip_dangling_edges_witness:
  "ctl_findAllTuitsDislikedByUser (request_of alice tuit1)
     (store_of [\<lparr>tuit = gone, dislikedBy = alice\<rparr>, \<lparr>tuit = tuit1, dislikedBy = alice\<rparr>] 1)
   = (JsonTuits [\<lparr>tuit_id = tuit1, postedBy = Some \<lparr>user_id = bob\<rparr>, stats = \<lparr>dislikes = 1\<rparr>\<rparr>],
      store_of [\<lparr>tuit = gone, dislikedBy = alice\<rparr>, \<lparr>tuit = tuit1, dislikedBy = alice\<rparr>] 1,
      [FindAllTuitsDislikedByUser alice])"
  using disliked_items_skip_dangling_edges
    [of "request_of alice tuit1"
        "store_of [\<lparr>tuit = gone, dislikedBy = alice\<rparr>, \<lparr>tuit = tuit1, dislikedBy = alice\<rparr>] 1"]
  by (simp add: request_of_def store_of_def actorOf_def userId_def spec_dislikedItemsOf_def
      populate_tuit_def populate_user_def alice_def bob_def tuit1_def gone_def)

text \<open>
  C8. The three query handlers (the dislikers of a tuit, the tuits an actor dislikes, the
  dislike-status check) return the store they were given: the dislikes collection and
  every tuit's statistics are the same after the call as before it, for every request.
\<close>

theorem queries_leave_store_unchanged:
  "fst (snd (ctl_findAllUsersThatDislikedTuit req db)) = db \<and>
   fst (snd (ctl_findAllTuitsDislikedByUser req db)) = db \<and>
   fst (snd (userAlreadyDislikedTuit req db)) = db"
  by (simp add: ctl_findAllUsersThatDislikedTuit_def ctl_findAllTuitsDislikedByUser_def
      userAlreadyDislikedTuit_def Let_def)

text \<open>
  C10. The handler listing the dislikers of a tuit reads nothing of the session: replacing
  the session's profile by any other (present or absent) gives the same response, the same
  store and the same single DAO call, and the response is never the 403 of an
  unauthenticated caller.
\<close>

theorem dislikers_query_ignores_session:
  "ctl_findAllUsersThatDislikedTuit (req\<lparr>session_profile := p\<rparr>) db
     = ctl_findAllUsersThatDislikedTuit req db \<and>
   fst (ctl_findAllUsersThatDislikedTuit req db) \<noteq> SendStatus 403 \<and>
   snd (snd (ctl_findAllUsersThatDislikedTuit req db))
     = [FindAllUsersThatDislikedTuit (params_tid req)]"
  by (simp add: ctl_findAllUsersThatDislikedTuit_def)

section \<open>Facts about the toggle\<close>

lemma found_edge_counts:
  assumes "findUserDislikesTuit db uid tid \<noteq> None"
  shows "1 \<le> countHowManyDislikedTuit db tid"
proof -
  from assms obtain d where "d \<in> set (dislikes_collection db)" and "tuit d = tid"
    by (auto simp: findUserDislikesTuit_def Model_findOne_def find_None_iff)
  then have "filter (\<lambda>d. tuit d = tid) (dislikes_collection db) \<noteq> []"
    by (auto simp: filter_empty_conv)
  then have "0 < length (filter (\<lambda>d. tuit d = tid) (dislikes_collection db))"
    by simp
  then show ?thesis
    by (simp add: countHowManyDislikedTuit_def Model_count_def Suc_le_eq)
qed

lemma write_counter_calls:
  assumes "UpdateDislikes tid' s \<in> set (snd (snd (write_counter il tid found n db calls)))"
    and "\<And>tid'' s'. UpdateDislikes tid'' s' \<notin> set calls"
  shows "tid' = tid \<and> dislikes s = n"
  using assms
  by (auto simp: write_counter_def Let_def split: option.splits sum.splits)

lemma write_counter_dislikes:
  "dislikes_collection (fst (snd (write_counter sequential tid found n db calls)))
     = dislikes_collection db"
  by (simp add: write_counter_def updateDislikes_def sequential_def Let_def
      split: option.splits)

lemma write_counter_keeps_calls:
  "c \<in> set calls \<Longrightarrow> c \<in> set (snd (snd (write_counter il tid found n db calls)))"
  by (simp add: write_counter_def Let_def split: option.splits sum.splits)

lemma toggle_unauthenticated:
  "params_uid req = ''me'' \<and> session_profile req = None \<Longrightarrow>
   userTogglesTuitDislikes il req db = (SendStatus 403, db, [])"
  by (simp add: userTogglesTuitDislikes_def)

lemma toggle_run_present:
  assumes "\<not> (params_uid req = ''me'' \<and> session_profile req = None)"
    and "findUserDislikesTuit db (actorOf req) (params_tid req) \<noteq> None"
  shows "userTogglesTuitDislikes sequential req db =
      write_counter sequential (params_tid req) (findTuitById db (params_tid req))
        (countHowManyDislikedTuit db (params_tid req) - 1)
        (userUnDislikesTuit db (actorOf req) (params_tid req))
        [FindUserDislikesTuit (actorOf req) (params_tid req),
         CountHowManyDislikedTuit (params_tid req), FindTuitById (params_tid req),
         UserUnDislikesTuit (actorOf req) (params_tid req)]"
  using assms by (auto simp: userTogglesTuitDislikes_def Let_def actorOf_def sequential_def)

lemma toggle_run_absent:
  assumes "\<not> (params_uid req = ''me'' \<and> session_profile req = None)"
    and "findUserDislikesTuit db (actorOf req) (params_tid req) = None"
  shows "userTogglesTuitDislikes sequential req db =
      write_counter sequential (params_tid req) (findTuitById db (params_tid req))
        (countHowManyDislikedTuit db (params_tid req) + 1)
        (snd (userDislikesTuit db (actorOf req) (params_tid req)))
        [FindUserDislikesTuit (actorOf req) (params_tid req),
         CountHowManyDislikedTuit (params_tid req), FindTuitById (params_tid req),
         UserDislikesTuit (actorOf req) (params_tid req)]"
  using assms by (auto simp: userTogglesTuitDislikes_def Let_def actorOf_def sequential_def)

lemma toggle_dislikes_present:
  assumes "\<not> (params_uid req = ''me'' \<and> session_profile req = None)"
    and "findUserDislikesTuit db (actorOf req) (params_tid req) \<noteq> None"
  shows "dislikes_collection (fst (snd (userTogglesTuitDislikes sequential req db)))
           = Model_deleteOne (\<lambda>d. tuit d = params_tid req \<and> dislikedBy d = actorOf req)
               (dislikes_collection db)"
  unfolding toggle_run_present [OF assms]
  by (simp add: write_counter_dislikes userUnDislikesTuit_def)

lemma toggle_dislikes_absent:
  assumes "\<not> (params_uid req = ''me'' \<and> session_profile req = None)"
    and "findUserDislikesTuit db (actorOf req) (params_tid req) = None"
  shows "dislikes_collection (fst (snd (userTogglesTuitDislikes sequential req db)))
           = dislikes_collection db @ [\<lparr>tuit = params_tid req, dislikedBy = actorOf req\<rparr>]"
  unfolding toggle_run_absent [OF assms]
  by (simp add: write_counter_dislikes userDislikesTuit_def Model_create_def Let_def)

lemma find_edge_None: "(findUserDislikesTuit db uid tid = None) = (edgeCount db uid tid = 0)"
  by (simp add: findUserDislikesTuit_def Model_findOne_def edgeCount_def find_None_filter)

lemma deleteOne_no_match: "List.find p xs = None \<Longrightarrow> Model_deleteOne p xs = xs"
  by (induction xs) (auto split: if_splits)

lemma length_deleteOne:
  "List.find p xs \<noteq> None \<Longrightarrow> Suc (length (Model_deleteOne p xs)) = length xs"
  by (induction xs) (auto split: if_splits)

lemma edgeCount_userUnDislikesTuit:
  "edgeCount (userUnDislikesTuit db uid tid) uid tid = edgeCount db uid tid - 1"
proof (cases "List.find (\<lambda>d. tuit d = tid \<and> dislikedBy d = uid) (dislikes_collection db) = None")
  case True
  then have "filter (\<lambda>d. tuit d = tid \<and> dislikedBy d = uid) (dislikes_collection db) = []"
    by (simp add: find_None_filter)
  then show ?thesis
    by (simp add: edgeCount_def userUnDislikesTuit_def deleteOne_no_match [OF True])
next
  case False
  then have "Suc (length (filter (\<lambda>d. tuit d = tid \<and> dislikedBy d = uid)
       (Model_deleteOne (\<lambda>d. tuit d = tid \<and> dislikedBy d = uid) (dislikes_collection db))))
     = length (filter (\<lambda>d. tuit d = tid \<and> dislikedBy d = uid) (dislikes_collection db))"
    by (rule filter_deleteOne_count)
  then show ?thesis
    by (simp add: edgeCount_def userUnDislikesTuit_def)
qed

lemma edgeCount_after_toggle:
  assumes "\<not> (params_uid req = ''me'' \<and> session_profile req = None)"
  shows "edgeCount (fst (snd (userTogglesTuitDislikes sequential req db))) uid tid =
           (if uid = actorOf req \<and> tid = params_tid req
            then (if edgeCount db uid tid = 0 then 1 else edgeCount db uid tid - 1)
            else edgeCount db uid tid)"
proof (cases "findUserDislikesTuit db (actorOf req) (params_tid req) = None")
  case True
  then have "edgeCount db (actorOf req) (params_tid req) = 0"
    by (simp add: find_edge_None)
  then show ?thesis
    using toggle_dislikes_absent [OF assms True]
    by (auto simp: edgeCount_def)
next
  case False
  let ?p = "\<lambda>d. tuit d = params_tid req \<and> dislikedBy d = actorOf req"
  have present: "List.find ?p (dislikes_collection db) \<noteq> None"
    using False by (simp add: findUserDislikesTuit_def Model_findOne_def)
  show ?thesis
  proof (cases "uid = actorOf req \<and> tid = params_tid req")
    case True
    have "Suc (length (filter ?p (Model_deleteOne ?p (dislikes_collection db))))
            = length (filter ?p (dislikes_collection db))"
      using present by (rule filter_deleteOne_count)
    then have "length (filter ?p (dislikes_collection db)) \<noteq> 0 \<and>
        length (filter ?p (Model_deleteOne ?p (dislikes_collection db)))
          = length (filter ?p (dislikes_collection db)) - 1"
      by linarith
    then show ?thesis
      using True toggle_dislikes_present [OF assms False]
      by (simp add: edgeCount_def)
  next
    case other: False
    have "filter (\<lambda>d. tuit d = tid \<and> dislikedBy d = uid)
            (Model_deleteOne ?p (dislikes_collection db))
          = filter (\<lambda>d. tuit d = tid \<and> dislikedBy d = uid) (dislikes_collection db)"
      using other by (intro filter_deleteOne_other) auto
    then show ?thesis
      using other toggle_dislikes_present [OF assms False]
      by (auto simp: edgeCount_def)
  qed
qed

lemma count_after_toggle:
  assumes "\<not> (params_uid req = ''me'' \<and> session_profile req = None)"
  shows "countHowManyDislikedTuit (fst (snd (userTogglesTuitDislikes sequential req db))) tid =
           (if tid = params_tid req
            then (if findUserDislikesTuit db (actorOf req) (params_tid req) = None
                  then countHowManyDislikedTuit db tid + 1
                  else countHowManyDislikedTuit db tid - 1)
            else countHowManyDislikedTuit db tid)"
proof (cases "findUserDislikesTuit db (actorOf req) (params_tid req) = None")
  case True
  then show ?thesis
    using toggle_dislikes_absent [OF assms True]
    by (auto simp: countHowManyDislikedTuit_def Model_count_def)
next
  case False
  let ?p = "\<lambda>d. tuit d = params_tid req \<and> dislikedBy d = actorOf req"
  have present: "List.find ?p (dislikes_collection db) \<noteq> None"
    using False by (simp add: findUserDislikesTuit_def Model_findOne_def)
  show ?thesis
  proof (cases "tid = params_tid req")
    case True
    have "Suc (length (filter (\<lambda>d. tuit d = tid) (Model_deleteOne ?p (dislikes_collection db))))
            = length (filter (\<lambda>d. tuit d = tid) (dislikes_collection db))"
      using present True by (intro filter_deleteOne_count) auto
    then have "int (length (filter (\<lambda>d. tuit d = tid) (Model_deleteOne ?p (dislikes_collection db))))
            = int (length (filter (\<lambda>d. tuit d = tid) (dislikes_collection db))) - 1"
      by linarith
    then show ?thesis
      using True False toggle_dislikes_present [OF assms False]
      by (simp add: countHowManyDislikedTuit_def Model_count_def)
  next
    case other: False
    have "filter (\<lambda>d. tuit d = tid) (Model_deleteOne ?p (dislikes_collection db))
          = filter (\<lambda>d. tuit d = tid) (dislikes_collection db)"
      using other by (intro filter_deleteOne_other) auto
    then show ?thesis
      using other toggle_dislikes_present [OF assms False]
      by (simp add: countHowManyDislikedTuit_def Model_count_def)
  qed
qed

lemma toggles_Cons_store:
  "snd (toggles (req # reqs) db)
     = snd (toggles reqs (fst (snd (userTogglesTuitDislikes sequential req db))))"
  by (simp split: prod.splits)

lemma pairs_unique_after_toggle:
  assumes "\<forall>uid tid. edgeCount db uid tid \<le> 1"
  shows "edgeCount (fst (snd (userTogglesTuitDislikes sequential req db))) uid tid \<le> 1"
proof (cases "params_uid req = ''me'' \<and> session_profile req = None")
  case True
  then show ?thesis using assms by (simp add: toggle_unauthenticated)
next
  case False
  show ?thesis
    using assms by (simp add: edgeCount_after_toggle [OF False])
qed

lemma pairs_unique_after_toggles:
  "\<forall>uid tid. edgeCount db uid tid \<le> 1 \<Longrightarrow>
   \<forall>uid tid. edgeCount (snd (toggles reqs db)) uid tid \<le> 1"
proof (induction reqs arbitrary: db)
  case Nil
  then show ?case by simp
next
  case (Cons req reqs)
  have "\<forall>uid tid. edgeCount (fst (snd (userTogglesTuitDislikes sequential req db))) uid tid \<le> 1"
    by (intro allI pairs_unique_after_toggle Cons.prems)
  then show ?case
    unfolding toggles_Cons_store by (rule Cons.IH)
qed

lemma write_counter_ok:
  assumes "write_counter sequential tid found n db calls = (SendStatus 200, db', calls')"
  shows "(\<exists>t. findTuitById db' tid = Some t \<and> dislikes (stats t) = n) \<and>
         (\<forall>tid2. tid2 \<noteq> tid \<longrightarrow> findTuitById db' tid2 = findTuitById db tid2) \<and>
         dislikes_collection db' = dislikes_collection db"
proof (cases found)
  case None
  with assms show ?thesis by (simp add: write_counter_def)
next
  case (Some t)
  show ?thesis
  proof (cases "findTuitById db tid")
    case None
    with assms Some show ?thesis
      by (simp add: write_counter_def updateDislikes_def sequential_def Let_def)
  next
    case (Some t')
    with assms \<open>found = Some t\<close>
    have db': "db' = db\<lparr>tuits_collection :=
                 updateStats tid ((stats t)\<lparr>dislikes := n\<rparr>) (tuits_collection db)\<rparr>"
      by (auto simp: write_counter_def updateDislikes_def sequential_def Let_def)
    from Some have "findTuitById db' tid = Some (t'\<lparr>stats := (stats t)\<lparr>dislikes := n\<rparr>\<rparr>)"
      unfolding db' by (simp add: findTuitById_def find_updateStats_same)
    then show ?thesis
      by (simp add: db' findTuitById_def find_updateStats_other)
  qed
qed

lemma findTuitById_dislikes_update:
  "findTuitById (db\<lparr>dislikes_collection := ds\<rparr>) tid = findTuitById db tid"
  by (simp add: findTuitById_def)

lemma toggle_ok_sync:
  assumes ok: "userTogglesTuitDislikes sequential req db = (SendStatus 200, db', calls)"
  shows "counterInSync db' (params_tid req) \<and>
         (\<forall>tid. tid \<noteq> params_tid req \<longrightarrow> counterInSync db' tid = counterInSync db tid)"
proof -
  let ?tid = "params_tid req"
  let ?present = "findUserDislikesTuit db (actorOf req) ?tid \<noteq> None"
  let ?n = "if ?present then countHowManyDislikedTuit db ?tid - 1
            else countHowManyDislikedTuit db ?tid + 1"
  have auth: "\<not> (params_uid req = ''me'' \<and> session_profile req = None)"
  proof
    assume "params_uid req = ''me'' \<and> session_profile req = None"
    then have "userTogglesTuitDislikes sequential req db = (SendStatus 403, db, [])"
      by (rule toggle_unauthenticated)
    with ok show False by simp
  qed
  have db': "db' = fst (snd (userTogglesTuitDislikes sequential req db))"
    using ok by simp
  have count_same: "countHowManyDislikedTuit db' ?tid = ?n"
    unfolding db' by (simp add: count_after_toggle [OF auth])
  have count_other: "countHowManyDislikedTuit db' tid = countHowManyDislikedTuit db tid"
    if "tid \<noteq> ?tid" for tid
    unfolding db' using that by (simp add: count_after_toggle [OF auth])
  obtain db4 cs where "write_counter sequential ?tid (findTuitById db ?tid) ?n db4 cs
        = (SendStatus 200, db', calls)"
    and db4: "\<And>tid. findTuitById db4 tid = findTuitById db tid"
  proof (cases ?present)
    case True
    show ?thesis
      by (rule that [of "userUnDislikesTuit db (actorOf req) ?tid"])
        (use ok True in \<open>simp_all add: toggle_run_present [OF auth True] userUnDislikesTuit_def
          findTuitById_dislikes_update\<close>)
  next
    case False
    then have absent: "findUserDislikesTuit db (actorOf req) ?tid = None" by simp
    show ?thesis
      by (rule that [of "snd (userDislikesTuit db (actorOf req) ?tid)"])
        (use ok absent in \<open>simp_all add: toggle_run_absent [OF auth absent] userDislikesTuit_def
          Let_def findTuitById_dislikes_update\<close>)
  qed
  from write_counter_ok [OF this(1)] db4
  have written: "\<exists>t. findTuitById db' ?tid = Some t \<and> dislikes (stats t) = ?n"
    and find_other: "\<And>tid. tid \<noteq> ?tid \<Longrightarrow> findTuitById db' tid = findTuitById db tid"
    by auto
  from written count_same have "counterInSync db' ?tid"
    by (auto simp: counterInSync_def)
  moreover have "counterInSync db' tid = counterInSync db tid" if "tid \<noteq> ?tid" for tid
    using find_other [OF that] count_other [OF that]
    by (simp add: counterInSync_def split: option.splits)
  ultimately show ?thesis by simp
qed

lemma toggles_sync:
  assumes "toggles reqs db = (rs, db')"
    and "list_all (\<lambda>r. r = SendStatus 200) rs"
    and "tid \<in> params_tid ` set reqs \<or> counterInSync db tid"
  shows "counterInSync db' tid"
  using assms
proof (induction reqs arbitrary: db rs)
  case Nil
  then show ?case by simp
next
  case (Cons req reqs)
  obtain r db1 calls where step: "userTogglesTuitDislikes sequential req db = (r, db1, calls)"
    by (cases "userTogglesTuitDislikes sequential req db") auto
  obtain rs' where rest: "toggles reqs db1 = (rs', db')" and rs: "rs = r # rs'"
    using Cons.prems(1) step by (auto split: prod.splits)
  from Cons.prems(2) rs have r: "r = SendStatus 200" and all: "list_all (\<lambda>r. r = SendStatus 200) rs'"
    by simp_all
  note sync = toggle_ok_sync [OF step [unfolded r]]
  have "tid \<in> params_tid ` set reqs \<or> counterInSync db1 tid"
  proof (cases "tid = params_tid req")
    case True
    with sync show ?thesis by simp
  next
    case False
    with sync Cons.prems(3) show ?thesis by auto
  qed
  with rest all show ?case by (rule Cons.IH)
qed

lemmas eval_defs =
  userTogglesTuitDislikes_def write_counter_def updateDislikes_def
  findTuitById_def findUserDislikesTuit_def Model_findOne_def countHowManyDislikedTuit_def
  Model_count_def Model_create_def userUnDislikesTuit_def userDislikesTuit_def
  sequential_def store_of_def request_of_def userId_def actorOf_def edgeCount_def Let_def
  alice_def bob_def tuit1_def gone_def

section \<open>The toggle\<close>

text \<open>
  C1, as the code has it. When the edge lookup of a toggle finds an edge for (actor, tuit),
  every counter write the toggle issues is for that tuit and carries the count it read
  minus 1, with no clamp. The count is the one read after whatever reached the store
  since the edge lookup; when nothing did, the count is at least 1 and the value written
  is not negative.
\<close>

theorem undislike_counter_is_count_minus_one:
  assumes "findUserDislikesTuit db (actorOf req) (params_tid req) \<noteq> None"
    and "UpdateDislikes tid' s \<in> set (snd (snd (userTogglesTuitDislikes il req db)))"
  shows "tid' = params_tid req \<and>
         dislikes s = countHowManyDislikedTuit (after_find il db) (params_tid req) - 1 \<and>
         (after_find il db = db \<longrightarrow> 0 \<le> dislikes s)"
proof -
  let ?tid = "params_tid req"
  let ?n = "countHowManyDislikedTuit (after_find il db) ?tid"
  have auth: "\<not> (params_uid req = ''me'' \<and> session_profile req = None)"
    using assms(2) by (auto simp: userTogglesTuitDislikes_def Let_def split: if_splits)
  from assms(1) auth obtain found db4 calls where
    run: "userTogglesTuitDislikes il req db = write_counter il ?tid found (?n - 1) db4 calls"
    and calls: "\<And>tid'' s'. UpdateDislikes tid'' s' \<notin> set calls"
    by (auto simp: userTogglesTuitDislikes_def Let_def actorOf_def)
  from assms(2) have "tid' = ?tid \<and> dislikes s = ?n - 1"
    unfolding run by (rule write_counter_calls) (rule calls)
  moreover have "after_find il db = db \<Longrightarrow> 1 \<le> ?n"
    using found_edge_counts [OF assms(1)] by simp
  ultimately show ?thesis by auto
qed

theorem undislike_counter_is_count_minus_one_witness:
  "findUserDislikesTuit (store_of [\<lparr>tuit = tuit1, dislikedBy = alice\<rparr>] 1) alice tuit1 \<noteq> None \<and>
   UpdateDislikes tuit1 \<lparr>dislikes = 0\<rparr>
     \<in> set (snd (snd (userTogglesTuitDislikes sequential (request_of alice tuit1)
                        (store_of [\<lparr>tuit = tuit1, dislikedBy = alice\<rparr>] 1)))) \<and>
   after_find sequential (store_of [\<lparr>tuit = tuit1, dislikedBy = alice\<rparr>] 1)
     = store_of [\<lparr>tuit = tuit1, dislikedBy = alice\<rparr>] 1 \<and>
   dislikes \<lparr>dislikes = 0\<rparr>
     = countHowManyDislikedTuit
         (after_find sequential (store_of [\<lparr>tuit = tuit1, dislikedBy = alice\<rparr>] 1)) tuit1 - 1 \<and>
   (0::int) \<le> dislikes \<lparr>dislikes = 0\<rparr>"
proof -
  let ?db = "store_of [\<lparr>tuit = tuit1, dislikedBy = alice\<rparr>] 1"
  let ?req = "request_of alice tuit1"
  have present: "findUserDislikesTuit ?db (actorOf ?req) (params_tid ?req) \<noteq> None"
    by (simp add: findUserDislikesTuit_def Model_findOne_def store_of_def actorOf_def
        request_of_def userId_def alice_def)
  have written: "UpdateDislikes tuit1 \<lparr>dislikes = 0\<rparr>
      \<in> set (snd (snd (userTogglesTuitDislikes sequential ?req ?db)))"
    by (simp add: userTogglesTuitDislikes_def write_counter_def updateDislikes_def
        findTuitById_def findUserDislikesTuit_def Model_findOne_def countHowManyDislikedTuit_def
        Model_count_def userUnDislikesTuit_def sequential_def store_of_def request_of_def
        userId_def Let_def alice_def tuit1_def)
  have same: "after_find sequential ?db = ?db"
    by (simp add: sequential_def)
  from undislike_counter_is_count_minus_one [OF present written] same present written
  show ?thesis
    by (simp add: actorOf_def request_of_def userId_def alice_def)
qed

text \<open>
  C1 as stated fails: alice's edge is found, another request's un-dislike of the same pair
  lands before the count, the count read is 0 and the counter written is -1, not 0.
\<close>

theorem unclamped_counter_counterexample:
  "findUserDislikesTuit (store_of [\<lparr>tuit = tuit1, dislikedBy = alice\<rparr>] 1) alice tuit1
     = Some \<lparr>tuit = tuit1, dislikedBy = alice\<rparr> \<and>
   countHowManyDislikedTuit
     (after_find racing_undislike (store_of [\<lparr>tuit = tuit1, dislikedBy = alice\<rparr>] 1)) tuit1 = 0 \<and>
   userTogglesTuitDislikes racing_undislike (request_of alice tuit1)
       (store_of [\<lparr>tuit = tuit1, dislikedBy = alice\<rparr>] 1)
     = (SendStatus 200, store_of [] (- 1),
        [FindUserDislikesTuit alice tuit1, CountHowManyDislikedTuit tuit1, FindTuitById tuit1,
         UserUnDislikesTuit alice tuit1, UpdateDislikes tuit1 \<lparr>dislikes = - 1\<rparr>])"
  by (simp add: userTogglesTuitDislikes_def write_counter_def updateDislikes_def
      findTuitById_def findUserDislikesTuit_def Model_findOne_def countHowManyDislikedTuit_def
      Model_count_def userUnDislikesTuit_def racing_undislike_def sequential_def store_of_def
      request_of_def userId_def Let_def alice_def tuit1_def)

text \<open>
  C2, as the code has it. The create operation of the store never fails: it appends a
  document, so the pair has one edge more than before, also when it had one already.
  That a pair has at most one edge is kept by the toggle's own lookup instead: if no
  pair has more than one edge, then none has after any sequence of toggles each completed
  before the next begins.
\<close>

theorem sequential_toggles_keep_pairs_unique:
  assumes "\<forall>uid tid. edgeCount db uid tid \<le> 1"
  shows "(\<forall>uid tid. edgeCount (snd (toggles reqs db)) uid tid \<le> 1) \<and>
         (\<forall>uid tid. edgeCount (snd (userDislikesTuit db uid tid)) uid tid
                      = Suc (edgeCount db uid tid))"
  using pairs_unique_after_toggles [OF assms]
  by (simp add: userDislikesTuit_def Model_create_def edgeCount_def Let_def)

theorem sequential_toggles_keep_pairs_unique_witness:
  "(\<forall>uid tid. edgeCount (store_of [\<lparr>tuit = tuit1, dislikedBy = alice\<rparr>] 1) uid tid \<le> 1) \<and>
   (\<forall>uid tid. edgeCount (snd (toggles [request_of alice tuit1, request_of bob tuit1, request_of alice tuit1]
       (store_of [\<lparr>tuit = tuit1, dislikedBy = alice\<rparr>] 1))) uid tid \<le> 1) \<and>
   edgeCount (snd (userDislikesTuit (store_of [\<lparr>tuit = tuit1, dislikedBy = alice\<rparr>] 1) bob tuit1))
     bob tuit1 = Suc (edgeCount (store_of [\<lparr>tuit = tuit1, dislikedBy = alice\<rparr>] 1) bob tuit1)"
proof -
  have unique: "\<forall>uid tid. edgeCount (store_of [\<lparr>tuit = tuit1, dislikedBy = alice\<rparr>] 1) uid tid \<le> 1"
    by (simp add: edgeCount_def store_of_def)
  from sequential_toggles_keep_pairs_unique [OF unique,
      of "[request_of alice tuit1, request_of bob tuit1, request_of alice tuit1]"] unique
  show ?thesis by blast
qed

text \<open>
  C2 as stated fails: with alice's edge for tuit1 in the store, the create operation for
  the same pair returns a document and leaves two edges for the pair.
\<close>

theorem create_inserts_duplicate_counterexample:
  "findUserDislikesTuit (store_of [\<lparr>tuit = tuit1, dislikedBy = alice\<rparr>] 1) alice tuit1
     = Some \<lparr>tuit = tuit1, dislikedBy = alice\<rparr> \<and>
   userDislikesTuit (store_of [\<lparr>tuit = tuit1, dislikedBy = alice\<rparr>] 1) alice tuit1
     = (\<lparr>tuit = tuit1, dislikedBy = alice\<rparr>,
        store_of [\<lparr>tuit = tuit1, dislikedBy = alice\<rparr>, \<lparr>tuit = tuit1, dislikedBy = alice\<rparr>] 1) \<and>
   edgeCount (snd (userDislikesTuit (store_of [\<lparr>tuit = tuit1, dislikedBy = alice\<rparr>] 1) alice tuit1))
     alice tuit1 = 2"
  by (simp add: findUserDislikesTuit_def Model_findOne_def userDislikesTuit_def Model_create_def
      store_of_def edgeCount_def Let_def)

text \<open>
  Two toggles of one pair that race reach such a store through the controller alone.
\<close>

lemma racing_toggles_duplicate_edge:
  "userTogglesTuitDislikes racing_dislike (request_of alice tuit1) (store_of [] 0)
     = (SendStatus 200,
        store_of [\<lparr>tuit = tuit1, dislikedBy = alice\<rparr>, \<lparr>tuit = tuit1, dislikedBy = alice\<rparr>] 2,
        [FindUserDislikesTuit alice tuit1, CountHowManyDislikedTuit tuit1, FindTuitById tuit1,
         UserDislikesTuit alice tuit1, UpdateDislikes tuit1 \<lparr>dislikes = 2\<rparr>])"
  by (simp add: eval_defs racing_dislike_def)

text \<open>
  C3. On a store without the tuit \<open>gone\<close> and without edges, alice's toggle of \<open>gone\<close>
  answers 404 and issues no counter write, but the edge (gone, alice) is in the store
  afterwards: \<open>userDislikesTuit\<close> has been awaited before \<open>tuit.stats\<close> throws on the null
  tuit.
\<close>

theorem toggle_of_missing_tuit_creates_edge:
  "findTuitById (store_of [] 0) gone = None \<and>
   userTogglesTuitDislikes sequential (request_of alice gone) (store_of [] 0)
     = (SendStatus 404, store_of [\<lparr>tuit = gone, dislikedBy = alice\<rparr>] 0,
        [FindUserDislikesTuit alice gone, CountHowManyDislikedTuit gone, FindTuitById gone,
         UserDislikesTuit alice gone])"
  by (simp add: eval_defs)

text \<open>
  The same for every request whose actor resolves and whose tuit is not found: 404, the
  tuits untouched, no counter write, and a dislikes collection one document longer or
  shorter than before.
\<close>

lemma missing_tuit_toggle_changes_edges:
  assumes auth: "\<not> (params_uid req = ''me'' \<and> session_profile req = None)"
    and missing: "findTuitById db (params_tid req) = None"
  shows "fst (userTogglesTuitDislikes sequential req db) = SendStatus 404 \<and>
         length (dislikes_collection (fst (snd (userTogglesTuitDislikes sequential req db))))
           \<noteq> length (dislikes_collection db) \<and>
         tuits_collection (fst (snd (userTogglesTuitDislikes sequential req db)))
           = tuits_collection db \<and>
         (\<forall>tid s. UpdateDislikes tid s
            \<notin> set (snd (snd (userTogglesTuitDislikes sequential req db))))"
proof (cases "findUserDislikesTuit db (actorOf req) (params_tid req) = None")
  case True
  show ?thesis
    unfolding toggle_run_absent [OF auth True] missing
    by (simp add: write_counter_def userDislikesTuit_def Model_create_def Let_def)
next
  case False
  then have "Suc (length (Model_deleteOne
        (\<lambda>d. tuit d = params_tid req \<and> dislikedBy d = actorOf req) (dislikes_collection db)))
      = length (dislikes_collection db)"
    by (intro length_deleteOne) (simp add: findUserDislikesTuit_def Model_findOne_def)
  then have "length (Model_deleteOne
        (\<lambda>d. tuit d = params_tid req \<and> dislikedBy d = actorOf req) (dislikes_collection db))
      \<noteq> length (dislikes_collection db)"
    by linarith
  then show ?thesis
    unfolding toggle_run_present [OF auth False] missing
    by (simp add: write_counter_def userUnDislikesTuit_def)
qed

text \<open>
  C4, as the code has it. From a store that holds at most one edge for the request's
  (actor, tuit) pair, two toggles of the same request in succession, with no other writer,
  leave the pair's edge present exactly if it was present before, and the number of the
  tuit's edges as it was.
\<close>

theorem double_toggle_restores_edge_and_count:
  assumes "edgeCount db (actorOf req) (params_tid req) \<le> 1"
  shows "(findUserDislikesTuit (snd (toggles [req, req] db)) (actorOf req) (params_tid req) = None)
           = (findUserDislikesTuit db (actorOf req) (params_tid req) = None) \<and>
         countHowManyDislikedTuit (snd (toggles [req, req] db)) (params_tid req)
           = countHowManyDislikedTuit db (params_tid req)"
proof (cases "params_uid req = ''me'' \<and> session_profile req = None")
  case True
  then show ?thesis by (simp add: toggle_unauthenticated)
next
  case False
  let ?db1 = "fst (snd (userTogglesTuitDislikes sequential req db))"
  let ?db2 = "fst (snd (userTogglesTuitDislikes sequential req ?db1))"
  have store: "snd (toggles [req, req] db) = ?db2"
    by (simp split: prod.splits)
  have e1: "edgeCount ?db1 (actorOf req) (params_tid req)
      = (if edgeCount db (actorOf req) (params_tid req) = 0 then 1 else 0)"
    using assms by (simp add: edgeCount_after_toggle [OF False])
  have e2: "edgeCount ?db2 (actorOf req) (params_tid req)
      = edgeCount db (actorOf req) (params_tid req)"
    using assms e1 by (simp add: edgeCount_after_toggle [OF False])
  have c2: "countHowManyDislikedTuit ?db2 (params_tid req) = countHowManyDislikedTuit db (params_tid req)"
    using e1 by (simp add: count_after_toggle [OF False] find_edge_None)
  show ?thesis
    unfolding store using e2 c2 by (simp add: find_edge_None)
qed

theorem double_toggle_restores_edge_and_count_witness:
  "edgeCount (store_of [\<lparr>tuit = tuit1, dislikedBy = alice\<rparr>] 1) alice tuit1 \<le> 1 \<and>
   findUserDislikesTuit (store_of [\<lparr>tuit = tuit1, dislikedBy = alice\<rparr>] 1) alice tuit1 \<noteq> None \<and>
   findUserDislikesTuit
     (snd (toggles [request_of alice tuit1, request_of alice tuit1]
             (store_of [\<lparr>tuit = tuit1, dislikedBy = alice\<rparr>] 1))) alice tuit1 \<noteq> None \<and>
   countHowManyDislikedTuit
     (snd (toggles [request_of alice tuit1, request_of alice tuit1]
             (store_of [\<lparr>tuit = tuit1, dislikedBy = alice\<rparr>] 1))) tuit1
     = countHowManyDislikedTuit (store_of [\<lparr>tuit = tuit1, dislikedBy = alice\<rparr>] 1) tuit1"
proof -
  let ?db = "store_of [\<lparr>tuit = tuit1, dislikedBy = alice\<rparr>] 1"
  let ?req = "request_of alice tuit1"
  have actor: "actorOf ?req = alice" and tid: "params_tid ?req = tuit1"
    by (simp_all add: actorOf_def request_of_def userId_def alice_def)
  have one: "edgeCount ?db alice tuit1 \<le> 1"
    by (simp add: edgeCount_def store_of_def)
  have present: "findUserDislikesTuit ?db alice tuit1 \<noteq> None"
    by (simp add: findUserDislikesTuit_def Model_findOne_def store_of_def)
  from double_toggle_restores_edge_and_count [of ?db ?req] one present show ?thesis
    by (simp add: actor tid)
qed

text \<open>
  C4 as stated fails on a store with two edges for the pair (the store two racing toggles
  leave): each toggle removes one, so after two the pair is no longer disliked and the
  tuit's edge count is 0, not 2.
\<close>

theorem double_toggle_counterexample:
  "findUserDislikesTuit
     (store_of [\<lparr>tuit = tuit1, dislikedBy = alice\<rparr>, \<lparr>tuit = tuit1, dislikedBy = alice\<rparr>] 2)
     alice tuit1 = Some \<lparr>tuit = tuit1, dislikedBy = alice\<rparr> \<and>
   countHowManyDislikedTuit
     (store_of [\<lparr>tuit = tuit1, dislikedBy = alice\<rparr>, \<lparr>tuit = tuit1, dislikedBy = alice\<rparr>] 2) tuit1 = 2 \<and>
   toggles [request_of alice tuit1, request_of alice tuit1]
     (store_of [\<lparr>tuit = tuit1, dislikedBy = alice\<rparr>, \<lparr>tuit = tuit1, dislikedBy = alice\<rparr>] 2)
     = ([SendStatus 200, SendStatus 200], store_of [] 0) \<and>
   findUserDislikesTuit (store_of [] 0) alice tuit1 = None \<and>
   countHowManyDislikedTuit (store_of [] 0) tuit1 = 0"
  by (simp add: eval_defs)

text \<open>
  C5. After any sequence of toggles, each completed before the next begins and each
  answered 200, every tuit one of the requests toggled is found and its cached counter
  \<open>stats.dislikes\<close> equals the number of dislike documents of the tuit.
\<close>

theorem counter_in_sync_after_successful_toggles:
  assumes "toggles reqs db = (rs, db')"
    and "list_all (\<lambda>r. r = SendStatus 200) rs"
    and "req \<in> set reqs"
  shows "\<exists>t. findTuitById db' (params_tid req) = Some t \<and>
             dislikes (stats t) = countHowManyDislikedTuit db' (params_tid req)"
proof -
  from assms(3) have "params_tid req \<in> params_tid ` set reqs \<or> counterInSync db (params_tid req)"
    by simp
  with assms(1,2) have "counterInSync db' (params_tid req)"
    by (rule toggles_sync)
  then show ?thesis
    by (simp add: counterInSync_def split: option.splits)
qed

theorem counter_in_sync_after_successful_toggles_witness:
  "toggles [request_of alice tuit1, request_of bob tuit1, request_of alice tuit1] (store_of [] 5)
     = ([SendStatus 200, SendStatus 200, SendStatus 200],
        store_of [\<lparr>tuit = tuit1, dislikedBy = bob\<rparr>] 1) \<and>
   list_all (\<lambda>r. r = SendStatus 200) [SendStatus 200, SendStatus 200, SendStatus 200] \<and>
   request_of alice tuit1
     \<in> set [request_of alice tuit1, request_of bob tuit1, request_of alice tuit1] \<and>
   (\<exists>t. findTuitById (store_of [\<lparr>tuit = tuit1, dislikedBy = bob\<rparr>] 1) tuit1 = Some t \<and>
        dislikes (stats t)
          = countHowManyDislikedTuit (store_of [\<lparr>tuit = tuit1, dislikedBy = bob\<rparr>] 1) tuit1)"
proof -
  let ?reqs = "[request_of alice tuit1, request_of bob tuit1, request_of alice tuit1]"
  have run: "toggles ?reqs (store_of [] 5)
     = ([SendStatus 200, SendStatus 200, SendStatus 200],
        store_of [\<lparr>tuit = tuit1, dislikedBy = bob\<rparr>] 1)"
    by (simp add: eval_defs)
  have ok: "list_all (\<lambda>r. r = SendStatus 200) [SendStatus 200, SendStatus 200, SendStatus 200]"
    by simp
  have member: "request_of alice tuit1 \<in> set ?reqs"
    by simp
  have tid: "params_tid (request_of alice tuit1) = tuit1"
    by (simp add: request_of_def)
  from counter_in_sync_after_successful_toggles [OF run ok member] run ok member
  show ?thesis
    unfolding tid by blast
qed

text \<open>
  C9. When the store holds more than one edge for the request's (actor, tuit) pair, a
  toggle with no other writer takes the un-dislike branch, \<open>userUnDislikesTuit\<close> removes
  exactly one of the pair's edges, and after the toggle the pair has one edge fewer and
  is still found disliked.
\<close>

theorem undislike_removes_one_edge:
  assumes "\<not> (params_uid req = ''me'' \<and> session_profile req = None)"
    and "1 < edgeCount db (actorOf req) (params_tid req)"
  shows "UserUnDislikesTuit (actorOf req) (params_tid req)
           \<in> set (snd (snd (userTogglesTuitDislikes sequential req db))) \<and>
         edgeCount (userUnDislikesTuit db (actorOf req) (params_tid req))
             (actorOf req) (params_tid req)
           = edgeCount db (actorOf req) (params_tid req) - 1 \<and>
         edgeCount (fst (snd (userTogglesTuitDislikes sequential req db)))
             (actorOf req) (params_tid req)
           = edgeCount db (actorOf req) (params_tid req) - 1 \<and>
         findUserDislikesTuit (fst (snd (userTogglesTuitDislikes sequential req db)))
             (actorOf req) (params_tid req) \<noteq> None"
proof -
  from assms(2) have present: "findUserDislikesTuit db (actorOf req) (params_tid req) \<noteq> None"
    by (simp add: find_edge_None)
  have "UserUnDislikesTuit (actorOf req) (params_tid req)
           \<in> set (snd (snd (userTogglesTuitDislikes sequential req db)))"
    unfolding toggle_run_present [OF assms(1) present]
    by (rule write_counter_keeps_calls) simp
  moreover have after: "edgeCount (fst (snd (userTogglesTuitDislikes sequential req db)))
             (actorOf req) (params_tid req)
           = edgeCount db (actorOf req) (params_tid req) - 1"
    using assms(2) by (simp add: edgeCount_after_toggle [OF assms(1)])
  moreover have "findUserDislikesTuit (fst (snd (userTogglesTuitDislikes sequential req db)))
             (actorOf req) (params_tid req) \<noteq> None"
    using assms(2) after by (simp add: find_edge_None)
  ultimately show ?thesis
    by (simp add: edgeCount_userUnDislikesTuit)
qed

theorem undislike_removes_one_edge_witness:
  "1 < edgeCount (store_of [\<lparr>tuit = tuit1, dislikedBy = alice\<rparr>, \<lparr>tuit = tuit1, dislikedBy = alice\<rparr>] 2)
         alice tuit1 \<and>
   UserUnDislikesTuit alice tuit1
     \<in> set (snd (snd (userTogglesTuitDislikes sequential (request_of alice tuit1)
          (store_of [\<lparr>tuit = tuit1, dislikedBy = alice\<rparr>, \<lparr>tuit = tuit1, dislikedBy = alice\<rparr>] 2)))) \<and>
   edgeCount (fst (snd (userTogglesTuitDislikes sequential (request_of alice tuit1)
          (store_of [\<lparr>tuit = tuit1, dislikedBy = alice\<rparr>, \<lparr>tuit = tuit1, dislikedBy = alice\<rparr>] 2))))
       alice tuit1 = 1 \<and>
   findUserDislikesTuit (fst (snd (userTogglesTuitDislikes sequential (request_of alice tuit1)
          (store_of [\<lparr>tuit = tuit1, dislikedBy = alice\<rparr>, \<lparr>tuit = tuit1, dislikedBy = alice\<rparr>] 2))))
       alice tuit1 \<noteq> None"
proof -
  let ?db = "store_of [\<lparr>tuit = tuit1, dislikedBy = alice\<rparr>, \<lparr>tuit = tuit1, dislikedBy = alice\<rparr>] 2"
  let ?req = "request_of alice tuit1"
  have actor: "actorOf ?req = alice" and tid: "params_tid ?req = tuit1"
    by (simp_all add: actorOf_def request_of_def userId_def alice_def)
  have auth: "\<not> (params_uid ?req = ''me'' \<and> session_profile ?req = None)"
    by (simp add: request_of_def alice_def)
  have n: "edgeCount ?db alice tuit1 = 2"
    by (simp add: edgeCount_def store_of_def)
  then have many: "1 < edgeCount ?db (actorOf ?req) (params_tid ?req)"
    by (simp add: actor tid)
  from undislike_removes_one_edge [OF auth many] n show ?thesis
    by (simp add: actor tid)
qed

end
